theory Spec2Isabelle
  imports Main "HOL-Library.Sublist"
begin

section \<open>JavaScript values, objects and errors\<close>

text \<open>
  The configuration module (\<^verbatim>\<open>agent-test-configs.ts\<close>) builds plain JavaScript objects
  and merges them with the spread operator. At run time the TypeScript interface
  \<^verbatim>\<open>AgentTestConfig\<close> is erased, so an object is a finite map from property names to
  values, and a property may be absent, present with the value \<^verbatim>\<open>undefined\<close>, a string, or
  one of the two function-valued fields.

  A thrown JavaScript exception is a value of type \<open>error\<close>; a computation that may throw
  returns \<open>error + 'a\<close> with \<open>Inl\<close> for the exception.
\<close>

datatype error =
    TypeError string
  | Error string
  | TimeoutError string
  | AssertionError string

text \<open>
  The body of a \<^verbatim>\<open>configureAgentSettings\<close> hook in the registry is a straight-line
  sequence of awaited \<^verbatim>\<open>agentsPage\<close> calls, each with one argument that is either the
  generated agent name or a property read on the config.
\<close>

datatype arg = AgentName | ConfigField string

datatype settings_method =
    SetAgentName
  | SelectApp
  | VerifyAppSelected
  | SetSchedule
  | SetSlackChannel
  | SetCreativeType
  | ConfigureGeoLocations

datatype hook_stmt = Await settings_method arg

text \<open>
  \<^verbatim>\<open>getAgentName: () => string\<close> draws on a random source. The random source is the
  state \<open>'r\<close> threaded through every call, so that two calls can return different names.
\<close>

type_synonym 'r name_fn = "'r \<Rightarrow> (error + string) \<times> 'r"

datatype 'r jsval =
    JUndefined
  | JString string
  | JNameFn "'r name_fn"
  | JHook "hook_stmt list"

type_synonym 'r obj = "string \<rightharpoonup> 'r jsval"

text \<open>Property read \<^verbatim>\<open>o.k\<close>: a missing property reads as \<^verbatim>\<open>undefined\<close>.\<close>

definition get_prop :: "'r obj \<Rightarrow> string \<Rightarrow> 'r jsval" where
  "get_prop ob k = (case ob k of None \<Rightarrow> JUndefined | Some v \<Rightarrow> v)"

text \<open>JavaScript truthiness, as used by the operator \<^verbatim>\<open>||\<close>.\<close>

fun truthy :: "'r jsval \<Rightarrow> bool" where
  "truthy JUndefined = False"
| "truthy (JString s) = (s \<noteq> [])"
| "truthy (JNameFn f) = True"
| "truthy (JHook h) = True"

section \<open>The configuration module\<close>

subsection \<open>Defaults\<close>

text \<open>
  \<^verbatim>\<open>const DEFAULT_CONFIG = { user: 'qualityguild.advertiser', appID: ..., ... } as const\<close>
\<close>

definition DEFAULT_CONFIG :: "'r obj" where
  "DEFAULT_CONFIG =
     [''user'' \<mapsto> JString ''qualityguild.advertiser'',
      ''appID'' \<mapsto> JString ''android.non.organic.regular'',
      ''slackChannel'' \<mapsto> JString ''rnd-arch-data-availability-poc'',
      ''initialSchedule'' \<mapsto> JString ''Daily at 6:00 PM'',
      ''updatedSchedule'' \<mapsto> JString ''Daily at 12:00 PM'']"

definition default_fields :: "string list" where
  "default_fields =
     [''user'', ''appID'', ''slackChannel'', ''initialSchedule'', ''updatedSchedule'']"

subsection \<open>Name generation\<close>

text \<open>
  The character class \<^verbatim>\<open>\s\<close> of a JavaScript regular expression, on the code units
  below 256 that a \<open>char\<close> holds: tab, line feed, vertical tab, form feed, carriage
  return, space and the no-break space.
\<close>

definition is_space :: "char \<Rightarrow> bool" where
  "is_space c = (of_char c \<in> {9, 10, 11, 12, 13, 32, 160 :: nat})"

text \<open>
  \<^verbatim>\<open>s.replace(/\s+/g, '')\<close>: scanning from the left, every maximal run of white space is
  replaced by the empty string and every other character is copied.
\<close>

function replace_space_runs :: "string \<Rightarrow> string" where
  "replace_space_runs [] = []"
| "replace_space_runs (c # cs) =
     (if is_space c then replace_space_runs (dropWhile is_space cs)
      else c # replace_space_runs cs)"
  by pat_completeness auto
termination
  by (relation "measure length") (auto simp: le_imp_less_Suc length_dropWhile_le)

text \<open>
  \<^verbatim>\<open>generateRandString\<close> is imported from \<^verbatim>\<open>../src/test-helpers\<close>, which is not part of
  the sources at hand; it is a parameter of the model: given the requested length and
  the random source it returns a string and the advanced source.
\<close>

type_synonym 'r rand_string = "nat \<Rightarrow> 'r \<Rightarrow> string \<times> 'r"

text \<open>
  \<^verbatim>\<open>createDefaultGetAgentName(agentDisplayName)\<close> returns a closure. Called, the closure
  first evaluates \<^verbatim>\<open>agentDisplayName.replace(...)\<close>, which throws a \<^verbatim>\<open>TypeError\<close> when the
  captured value is \<^verbatim>\<open>undefined\<close> or has no method \<^verbatim>\<open>replace\<close>, and then the template with
  \<^verbatim>\<open>generateRandString(8)\<close>.
\<close>

definition createDefaultGetAgentName :: "'r rand_string \<Rightarrow> 'r jsval \<Rightarrow> 'r name_fn" where
  "createDefaultGetAgentName generateRandString agentDisplayName = (\<lambda>r.
     case agentDisplayName of
       JString s \<Rightarrow>
         (let prefix = replace_space_runs s;
              (suffix, r') = generateRandString 8 r
          in (Inr (prefix @ ''_'' @ suffix), r'))
     | JUndefined \<Rightarrow> (Inl (TypeError ''Cannot read properties of undefined''), r)
     | _ \<Rightarrow> (Inl (TypeError ''agentDisplayName.replace is not a function''), r))"

subsection \<open>The registry and its resolution\<close>

text \<open>The two hook bodies of \<^verbatim>\<open>AGENT_CONFIGS\<close>.\<close>

definition monitor_hook :: "hook_stmt list" where
  "monitor_hook =
     [Await SetAgentName AgentName,
      Await SelectApp (ConfigField ''appID''),
      Await VerifyAppSelected (ConfigField ''appID''),
      Await SetSchedule (ConfigField ''initialSchedule''),
      Await SetSlackChannel (ConfigField ''slackChannel'')]"

definition deep_research_hook :: "hook_stmt list" where
  "deep_research_hook =
     [Await SetAgentName AgentName,
      Await SelectApp (ConfigField ''appID''),
      Await VerifyAppSelected (ConfigField ''appID''),
      Await SetSlackChannel (ConfigField ''slackChannel'')]"

definition AGENT_CONFIGS :: "'r obj list" where
  "AGENT_CONFIGS =
     [[''agentDisplayName'' \<mapsto> JString ''Monitor app versions changes'',
       ''configureAgentSettings'' \<mapsto> JHook monitor_hook],
      [''agentDisplayName'' \<mapsto> JString ''Deep research analysis'',
       ''updatedSchedule'' \<mapsto> JString ''Weekly on Monday'',
       ''configureAgentSettings'' \<mapsto> JHook deep_research_hook]]"

text \<open>
  The arrow function mapped over the registry:
  \<^verbatim>\<open>config => ({...DEFAULT_CONFIG, ...config,
       getAgentName: config.getAgentName || createDefaultGetAgentName(config.agentDisplayName)})\<close>.
  A spread copies the own properties of its operand, later ones overwriting earlier ones,
  which is \<open>++\<close> on maps.
\<close>

definition resolve_config :: "'r rand_string \<Rightarrow> 'r obj \<Rightarrow> 'r obj" where
  "resolve_config generateRandString config =
     (DEFAULT_CONFIG ++ config)
       (''getAgentName'' \<mapsto>
          (if truthy (get_prop config ''getAgentName'')
           then get_prop config ''getAgentName''
           else JNameFn (createDefaultGetAgentName generateRandString
                           (get_prop config ''agentDisplayName''))))"

definition resolve_all :: "'r rand_string \<Rightarrow> 'r obj list \<Rightarrow> 'r obj list" where
  "resolve_all generateRandString configs = map (resolve_config generateRandString) configs"

definition AGENT_TEST_CONFIGS :: "'r rand_string \<Rightarrow> 'r obj list" where
  "AGENT_TEST_CONFIGS generateRandString = resolve_all generateRandString AGENT_CONFIGS"

text \<open>
  Evaluating the module's top-level statement over a registry. The mapped arrow function
  contains no \<^verbatim>\<open>throw\<close>; it reads properties of an object, spreads objects and creates a
  closure, none of which raises, so the evaluation has no \<open>Inl\<close> branch.
\<close>

definition load_configs :: "'r rand_string \<Rightarrow> 'r obj list \<Rightarrow> error + 'r obj list" where
  "load_configs generateRandString configs = Inr (resolve_all generateRandString configs)"

text \<open>
  The call \<^verbatim>\<open>config.getAgentName()\<close>. Calling a value that is no function throws a
  \<^verbatim>\<open>TypeError\<close>. JavaScript calls any function, so a hook found in this property is
  called too, without arguments: being \<^verbatim>\<open>async\<close> it throws nothing and returns a
  Promise, and the test goes on with that object as the name. Every use of the name in a
  pattern or a step reads it through a template literal, where a Promise prints as
  \<^verbatim>\<open>[object Promise]\<close>; the model carries this string as the name.
\<close>

definition call_getAgentName :: "'r obj \<Rightarrow> 'r name_fn" where
  "call_getAgentName config = (\<lambda>r.
     case get_prop config ''getAgentName'' of
       JNameFn f \<Rightarrow> f r
     | JHook body \<Rightarrow> (Inr ''[object Promise]'', r)
     | _ \<Rightarrow> (Inl (TypeError ''config.getAgentName is not a function''), r))"

text \<open>
  A resolved config is fully populated when each of the five defaultable fields holds a
  string.
\<close>

fun is_string :: "'r jsval \<Rightarrow> bool" where
  "is_string (JString s) = True"
| "is_string _ = False"

definition fully_populated :: "'r obj \<Rightarrow> bool" where
  "fully_populated config = list_all (\<lambda>F. is_string (get_prop config F)) default_fields"

text \<open>
  A sample random source for concrete evaluations: the state counts the calls, and every
  call returns the requested number of characters.
\<close>

definition sample_rand :: "nat rand_string" where
  "sample_rand n k = (take n (concat (replicate n ''AB12CD34'')), Suc k)"

text \<open>An entry of the registry is looked up by its display name.\<close>

definition has_display_name :: "string \<Rightarrow> 'r obj \<Rightarrow> bool" where
  "has_display_name d config =
     (case get_prop config ''agentDisplayName'' of JString s \<Rightarrow> s = d | _ \<Rightarrow> False)"

text \<open>An entry whose display name holds a character that is no letter, digit or underscore.\<close>

definition ad_hoc_entry :: "nat obj" where
  "ad_hoc_entry =
     [''agentDisplayName'' \<mapsto> JString ''Ad-hoc report'',
      ''configureAgentSettings'' \<mapsto> JHook monitor_hook]"

text \<open>An entry that has the property \<^verbatim>\<open>appID\<close> with the value \<^verbatim>\<open>undefined\<close>.\<close>

definition undefined_appID_entry :: "nat obj" where
  "undefined_appID_entry =
     [''agentDisplayName'' \<mapsto> JString ''Deep research analysis'',
      ''appID'' \<mapsto> JUndefined,
      ''configureAgentSettings'' \<mapsto> JHook deep_research_hook]"

section \<open>The page object\<close>

subsection \<open>Regular expressions built from an agent name\<close>

text \<open>
  The page object locates an agent by \<^verbatim>\<open>new RegExp(`^${agentName}$`)\<close>: the name is
  placed in the pattern as it is, without escaping. The fragment of the pattern language
  computed here is the one without quantifiers, groups, classes, alternatives and
  escapes: the assertions \<^verbatim>\<open>^\<close> and \<^verbatim>\<open>$\<close> (no flags: start and end of the input), the
  wildcard \<^verbatim>\<open>.\<close> (any character but a line terminator) and literal characters. A
  pattern with any other syntax character is handed to the engine of the browser, a
  parameter, which may also throw a \<^verbatim>\<open>SyntaxError\<close>.
\<close>

datatype atom = InputStart | InputEnd | AnyChar | Lit char

definition syntax_char :: "char \<Rightarrow> bool" where
  "syntax_char c = (c \<in> set ''^$.*+?()[]{}|'' \<or> c = CHR 0x5C)"

fun parse_pattern :: "string \<Rightarrow> atom list option" where
  "parse_pattern [] = Some []"
| "parse_pattern (c # cs) =
     (if c = CHR ''^'' then map_option ((#) InputStart) (parse_pattern cs)
      else if c = CHR ''$'' then map_option ((#) InputEnd) (parse_pattern cs)
      else if c = CHR ''.'' then map_option ((#) AnyChar) (parse_pattern cs)
      else if syntax_char c then None
      else map_option ((#) (Lit c)) (parse_pattern cs))"

definition line_terminator :: "char \<Rightarrow> bool" where
  "line_terminator c = (c = CHR 0x0A \<or> c = CHR 0x0D)"

text \<open>
  \<open>match_here atoms at_start rest\<close>: the atoms match a prefix of \<open>rest\<close>, where
  \<open>at_start\<close> tells whether \<open>rest\<close> is the whole input.
\<close>

fun match_here :: "atom list \<Rightarrow> bool \<Rightarrow> string \<Rightarrow> bool" where
  "match_here [] at_start rest = True"
| "match_here (InputStart # as) at_start rest = (at_start \<and> match_here as at_start rest)"
| "match_here (InputEnd # as) at_start rest = (rest = [] \<and> match_here as at_start rest)"
| "match_here (AnyChar # as) at_start [] = False"
| "match_here (AnyChar # as) at_start (c # rest) =
     (\<not> line_terminator c \<and> match_here as False rest)"
| "match_here (Lit x # as) at_start [] = False"
| "match_here (Lit x # as) at_start (c # rest) = (x = c \<and> match_here as False rest)"

text \<open>\<^verbatim>\<open>RegExp.prototype.test\<close>: a match may start at any index of the input.\<close>

fun regexp_search :: "atom list \<Rightarrow> bool \<Rightarrow> string \<Rightarrow> bool" where
  "regexp_search as at_start [] = match_here as at_start []"
| "regexp_search as at_start (c # rest) =
     (match_here as at_start (c # rest) \<or> regexp_search as False rest)"

type_synonym regexp_engine = "string \<Rightarrow> error + (string \<Rightarrow> bool)"

definition new_RegExp :: "regexp_engine \<Rightarrow> string \<Rightarrow> error + (string \<Rightarrow> bool)" where
  "new_RegExp engine pattern =
     (case parse_pattern pattern of
        Some atoms \<Rightarrow> Inr (\<lambda>input. regexp_search atoms True input)
      | None \<Rightarrow> engine pattern)"

definition name_pattern :: "string \<Rightarrow> string" where
  "name_pattern agentName = ''^'' @ agentName @ ''$''"

text \<open>A name in which every character of the pattern stands for itself.\<close>

definition literal_name :: "string \<Rightarrow> bool" where
  "literal_name agentName = list_all (\<lambda>c. \<not> syntax_char c) agentName"

subsection \<open>The browser\<close>

text \<open>
  The browser automation library and the application under test are external. A page
  state is a value of type \<open>'p\<close>, and the record below is what the page object needs of
  them:
  \<^item> \<open>perform\<close>: a page action either fails (its wait ran out) or leaves a new page state;
  \<^item> \<open>retries\<close>: the page states that the later attempts of a retrying assertion with
    the given timeout (in milliseconds) observe, after the state it first looks at;
  \<^item> \<open>card_paragraphs\<close>: the elements of
    \<^verbatim>\<open>page.locator('[class*="MuiPaper-root"]').getByRole('paragraph')\<close>, in document order;
  \<^item> \<open>regexp\<close>: the regular expression engine outside the computed fragment;
  \<^item> \<open>response\<close>: \<^verbatim>\<open>page.waitForResponse\<close> for the POST to the run-agent endpoint,
    registered in the first state and awaited in the second: the status and the page
    state when it arrives, or the failure of the wait;
  \<^item> \<open>other_method\<close>: the methods of the page object that are left to the browser as a
    whole (filling the form, deploying, editing, reading the schedule).
\<close>

record para =
  para_text :: string
  para_visible :: bool

datatype locator =
    CardMenuButton string
  | MenuItem string
  | DialogButton string

datatype action =
    Reload
  | WaitForLoadState string
  | Click locator
  | WaitForVisible locator

datatype 'r call =
    SelectAgent "'r jsval"
  | Settings settings_method "'r jsval"
  | PageWaitForLoadState string
  | ActivateAgent
  | ExpectAgentVisible string
  | RefreshAndExpectAgentVisible string
  | RunNowAgent string
  | EditAgent string
  | UpdateSchedule "'r jsval"
  | SaveChanges
  | ExpectAgentSchedule string "'r jsval"
  | RefreshAndExpectAgentSchedule string "'r jsval"
  | DeleteAgent string
  | ExpectAgentNotVisible string
  | RefreshAndExpectAgentNotVisible string

record ('p, 'r) browser =
  perform :: "action \<Rightarrow> 'p \<Rightarrow> error + 'p"
  retries :: "nat \<Rightarrow> 'p \<Rightarrow> 'p list"
  card_paragraphs :: "'p \<Rightarrow> para list"
  regexp :: regexp_engine
  response :: "'p \<Rightarrow> 'p \<Rightarrow> error + nat \<times> 'p"
  other_method :: "'r call \<Rightarrow> 'p \<Rightarrow> error + 'p"

text \<open>A sequence of awaited calls: the first rejection is thrown and ends the sequence.\<close>

fun awaits :: "('p \<Rightarrow> error + 'p) list \<Rightarrow> 'p \<Rightarrow> error + 'p" where
  "awaits [] p = Inr p"
| "awaits (f # fs) p = (case f p of Inl e \<Rightarrow> Inl e | Inr p' \<Rightarrow> awaits fs p')"

text \<open>
  A retrying assertion \<^verbatim>\<open>await expect(locator).toX({ timeout })\<close> passes in the first
  observed page state in which the condition holds and fails when there is none.
\<close>

definition expect_retrying ::
  "('p, 'r) browser \<Rightarrow> nat \<Rightarrow> ('p \<Rightarrow> bool) \<Rightarrow> string \<Rightarrow> 'p \<Rightarrow> error + 'p" where
  "expect_retrying b timeout holds message p =
     (case find holds (p # retries b timeout p) of
        Some p' \<Rightarrow> Inr p'
      | None \<Rightarrow> Inl (AssertionError message))"

text \<open>
  \<^verbatim>\<open>.getByRole('paragraph').filter({ hasText: re })\<close> on the cards: the paragraphs whose
  text the expression matches.
\<close>

definition agent_name_paragraphs ::
  "('p, 'r) browser \<Rightarrow> (string \<Rightarrow> bool) \<Rightarrow> 'p \<Rightarrow> para list" where
  "agent_name_paragraphs b re p = filter (\<lambda>q. re (para_text q)) (card_paragraphs b p)"

text \<open>\<^verbatim>\<open>expect(locator.first()).toBeVisible()\<close>\<close>

definition first_toBeVisible :: "para list \<Rightarrow> bool" where
  "first_toBeVisible qs = (case qs of [] \<Rightarrow> False | q # _ \<Rightarrow> para_visible q)"

text \<open>\<^verbatim>\<open>expect(locator).toHaveCount(0)\<close>\<close>

definition toHaveCount :: "nat \<Rightarrow> para list \<Rightarrow> bool" where
  "toHaveCount n qs = (length qs = n)"

subsection \<open>Methods of \<^verbatim>\<open>AgentsPage\<close>\<close>

definition waitForPageLoad :: "('p, 'r) browser \<Rightarrow> 'p \<Rightarrow> error + 'p" where
  "waitForPageLoad b = perform b (WaitForLoadState ''networkidle'')"

definition expectAgentVisible :: "('p, 'r) browser \<Rightarrow> string \<Rightarrow> 'p \<Rightarrow> error + 'p" where
  "expectAgentVisible b agentName p =
     (case waitForPageLoad b p of
        Inl e \<Rightarrow> Inl e
      | Inr p1 \<Rightarrow>
          (case new_RegExp (regexp b) (name_pattern agentName) of
             Inl e \<Rightarrow> Inl e
           | Inr re \<Rightarrow>
               expect_retrying b 15000
                 (\<lambda>p'. first_toBeVisible (agent_name_paragraphs b re p'))
                 ''expect(locator).toBeVisible()'' p1))"

definition refreshAndExpectAgentVisible ::
  "('p, 'r) browser \<Rightarrow> string \<Rightarrow> 'p \<Rightarrow> error + 'p" where
  "refreshAndExpectAgentVisible b agentName =
     awaits [perform b Reload, waitForPageLoad b, expectAgentVisible b agentName]"

definition expectAgentNotVisible :: "('p, 'r) browser \<Rightarrow> string \<Rightarrow> 'p \<Rightarrow> error + 'p" where
  "expectAgentNotVisible b agentName p =
     (case waitForPageLoad b p of
        Inl e \<Rightarrow> Inl e
      | Inr p1 \<Rightarrow>
          (case new_RegExp (regexp b) (name_pattern agentName) of
             Inl e \<Rightarrow> Inl e
           | Inr re \<Rightarrow>
               expect_retrying b 30000
                 (\<lambda>p'. toHaveCount 0 (agent_name_paragraphs b re p'))
                 ''expect(locator).toHaveCount(0)'' p1))"

definition refreshAndExpectAgentNotVisible ::
  "('p, 'r) browser \<Rightarrow> string \<Rightarrow> 'p \<Rightarrow> error + 'p" where
  "refreshAndExpectAgentNotVisible b agentName =
     awaits [perform b Reload, waitForPageLoad b, expectAgentNotVisible b agentName]"

text \<open>
  \<^verbatim>\<open>deleteAgent\<close>: the card is located by the name pattern, its menu opened, Delete chosen
  and confirmed in the dialog; after the network is idle the method itself asserts that
  the agent is not visible.
\<close>

definition deleteAgent :: "('p, 'r) browser \<Rightarrow> string \<Rightarrow> 'p \<Rightarrow> error + 'p" where
  "deleteAgent b agentName p =
     (case new_RegExp (regexp b) (name_pattern agentName) of
        Inl e \<Rightarrow> Inl e
      | Inr re \<Rightarrow>
          awaits
            [perform b (Click (CardMenuButton (name_pattern agentName))),
             perform b (WaitForVisible (MenuItem ''delete'')),
             perform b (Click (MenuItem ''delete'')),
             perform b (WaitForVisible (DialogButton ''delete|confirm'')),
             perform b (Click (DialogButton ''delete|confirm'')),
             perform b (WaitForLoadState ''networkidle''),
             expectAgentNotVisible b agentName] p)"

text \<open>The decimal numeral that a template literal prints for a status code.\<close>

fun number_toString :: "nat \<Rightarrow> string" where
  "number_toString n =
     (if n < 10 then [''0123456789'' ! n]
      else number_toString (n div 10) @ [''0123456789'' ! (n mod 10)])"

text \<open>
  Reading a decimal numeral, written independently of \<open>number_toString\<close>: the value of a
  digit is its code minus the code of \<^verbatim>\<open>0\<close>, and the value of a string is computed
  from the left.
\<close>

definition is_digit :: "char \<Rightarrow> bool" where
  "is_digit c = (48 \<le> (of_char c :: nat) \<and> (of_char c :: nat) \<le> 57)"

definition digit_value :: "char \<Rightarrow> nat" where
  "digit_value c = of_char c - 48"

definition decimal_value :: "string \<Rightarrow> nat" where
  "decimal_value s = foldl (\<lambda>acc c. 10 * acc + digit_value c) 0 s"

text \<open>
  \<^verbatim>\<open>runNowAgent\<close>: the wait for the response is registered before the clicks and awaited
  after them; a status other than 200 is thrown as an \<^verbatim>\<open>Error\<close>.
\<close>

definition runNowAgent :: "('p, 'r) browser \<Rightarrow> string \<Rightarrow> 'p \<Rightarrow> error + 'p" where
  "runNowAgent b agentName p =
     (case new_RegExp (regexp b) (name_pattern agentName) of
        Inl e \<Rightarrow> Inl e
      | Inr re \<Rightarrow>
          (case awaits
                  [perform b (Click (CardMenuButton (name_pattern agentName))),
                   perform b (WaitForVisible (MenuItem ''run now'')),
                   perform b (Click (MenuItem ''run now''))] p of
             Inl e \<Rightarrow> Inl e
           | Inr p1 \<Rightarrow>
               (case response b p p1 of
                  Inl e \<Rightarrow> Inl e
                | Inr (status, p2) \<Rightarrow>
                    if status \<noteq> 200
                    then Inl (Error (''Agent execution failed: Expected 200 but received '' @
                                       number_toString status))
                    else Inr p2)))"

text \<open>A call of a method of the page object, or of \<^verbatim>\<open>agentsPage.page\<close>, from a test.\<close>

fun method_body :: "('p, 'r) browser \<Rightarrow> 'r call \<Rightarrow> 'p \<Rightarrow> error + 'p" where
  "method_body b (PageWaitForLoadState s) = perform b (WaitForLoadState s)"
| "method_body b (ExpectAgentVisible n) = expectAgentVisible b n"
| "method_body b (RefreshAndExpectAgentVisible n) = refreshAndExpectAgentVisible b n"
| "method_body b (RunNowAgent n) = runNowAgent b n"
| "method_body b (DeleteAgent n) = deleteAgent b n"
| "method_body b (ExpectAgentNotVisible n) = expectAgentNotVisible b n"
| "method_body b (RefreshAndExpectAgentNotVisible n) = refreshAndExpectAgentNotVisible b n"
| "method_body b c = other_method b c"

section \<open>The generic lifecycle test\<close>

text \<open>
  A run of a test leaves a trace: the steps it opened and closed and the calls it made on
  the page object. A piece of test code takes the page state and returns the trace it
  produced together with the thrown error or the new page state.
\<close>

datatype 'r event = StepBegin string | Call "'r call" | StepEnd string

type_synonym ('p, 'r) run = "'p \<Rightarrow> 'r event list \<times> (error + 'p)"

definition agentsPage :: "('p, 'r) browser \<Rightarrow> 'r call \<Rightarrow> ('p, 'r) run" where
  "agentsPage b c p = ([Call c], method_body b c p)"

text \<open>Consecutive \<^verbatim>\<open>await\<close> statements: the next one runs only if the one before returned.\<close>

fun in_sequence :: "('p, 'r) run list \<Rightarrow> ('p, 'r) run" where
  "in_sequence [] p = ([], Inr p)"
| "in_sequence (f # fs) p =
     (case f p of
        (es, Inl e) \<Rightarrow> (es, Inl e)
      | (es, Inr p') \<Rightarrow> (case in_sequence fs p' of (es', r) \<Rightarrow> (es @ es', r)))"

text \<open>\<^verbatim>\<open>await test.step(title, body)\<close>: the step is closed when its body has returned.\<close>

definition test_step :: "string \<Rightarrow> ('p, 'r) run \<Rightarrow> ('p, 'r) run" where
  "test_step title body p =
     (case body p of
        (es, Inl e) \<Rightarrow> (StepBegin title # es, Inl e)
      | (es, Inr p') \<Rightarrow> (StepBegin title # es @ [StepEnd title], Inr p'))"

text \<open>
  A value in a template literal. The source text that JavaScript prints for a function
  is not part of the model; only the first two cases occur for a display name.
\<close>

fun template_value :: "'r jsval \<Rightarrow> string" where
  "template_value (JString s) = s"
| "template_value JUndefined = ''undefined''"
| "template_value (JNameFn f) = ''() => string''"
| "template_value (JHook h) = ''async () => void''"

fun eval_arg :: "'r obj \<Rightarrow> string \<Rightarrow> arg \<Rightarrow> 'r jsval" where
  "eval_arg config agentName AgentName = JString agentName"
| "eval_arg config agentName (ConfigField k) = get_prop config k"

fun hook_call :: "'r obj \<Rightarrow> string \<Rightarrow> hook_stmt \<Rightarrow> 'r call" where
  "hook_call config agentName (Await m a) = Settings m (eval_arg config agentName a)"

text \<open>
  \<^verbatim>\<open>await config.configureAgentSettings(agentsPage, agentName, config)\<close>. A hook runs its
  calls in order. Calling a value that is no function throws a \<^verbatim>\<open>TypeError\<close>. A name
  function found in this property is called too: it makes no call on the page object and
  returns its string, or throws what it throws; it reads the random source \<open>r\<close> that
  the call of \<^verbatim>\<open>getAgentName\<close> left.
\<close>

definition call_configureAgentSettings ::
  "('p, 'r) browser \<Rightarrow> 'r obj \<Rightarrow> 'r \<Rightarrow> string \<Rightarrow> ('p, 'r) run" where
  "call_configureAgentSettings b config r agentName =
     (case get_prop config ''configureAgentSettings'' of
        JHook body \<Rightarrow> in_sequence (map (\<lambda>s. agentsPage b (hook_call config agentName s)) body)
      | JNameFn f \<Rightarrow>
          (\<lambda>p. case fst (f r) of Inl e \<Rightarrow> ([], Inl e) | Inr name \<Rightarrow> ([], Inr p))
      | _ \<Rightarrow> (\<lambda>p. ([], Inl (TypeError ''config.configureAgentSettings is not a function''))))"

text \<open>
  The body of the test generated for one resolved config
  (\<^verbatim>\<open>generic-agent-lifecycle.spec.ts\<close>). The name is generated first; the call of
  \<^verbatim>\<open>runNowAgent\<close> in the sixth step is commented out in the source, so that step has an
  empty body. The result is the trace with the outcome, and the random source as the
  call of \<^verbatim>\<open>getAgentName\<close> left it.
\<close>

definition lifecycle_test ::
  "('p, 'r) browser \<Rightarrow> 'r obj \<Rightarrow> 'r \<Rightarrow> 'p \<Rightarrow> ('r event list \<times> (error + 'p)) \<times> 'r" where
  "lifecycle_test b config r p =
     (case call_getAgentName config r of
        (Inl e, r') \<Rightarrow> (([], Inl e), r')
      | (Inr agentName, r') \<Rightarrow>
          (in_sequence
            [test_step (''Navigate to agents page and select '' @
                          template_value (get_prop config ''agentDisplayName''))
               (in_sequence
                 [agentsPage b (SelectAgent (get_prop config ''agentDisplayName''))]),
             test_step ''Configure agent with all required settings''
               (in_sequence
                 [call_configureAgentSettings b config r' agentName,
                  agentsPage b (PageWaitForLoadState ''networkidle'')]),
             test_step ''Deploy the agent''
               (in_sequence [agentsPage b ActivateAgent]),
             test_step ''Verify agent appears in Your Agents section''
               (in_sequence [agentsPage b (ExpectAgentVisible agentName)]),
             test_step ''Verify agent persistence after page refresh''
               (in_sequence [agentsPage b (RefreshAndExpectAgentVisible agentName)]),
             test_step ''SKIPPED: Execute agent immediately and verify successful run''
               (in_sequence []),
             test_step ''Modify agent schedule configuration''
               (in_sequence
                 [agentsPage b (EditAgent agentName),
                  agentsPage b (UpdateSchedule (get_prop config ''updatedSchedule'')),
                  agentsPage b SaveChanges]),
             test_step ''Verify schedule update is displayed and persisted''
               (in_sequence
                 [agentsPage b
                    (ExpectAgentSchedule agentName (get_prop config ''updatedSchedule'')),
                  agentsPage b
                    (RefreshAndExpectAgentSchedule agentName
                       (get_prop config ''updatedSchedule''))]),
             test_step ''Delete the agent''
               (in_sequence [agentsPage b (DeleteAgent agentName)]),
             test_step ''Verify agent deletion is complete and persistent''
               (in_sequence [agentsPage b (RefreshAndExpectAgentNotVisible agentName)])]
            p, r'))"

subsection \<open>The order of a complete run\<close>

text \<open>
  The calls of the hook of a config, and the trace of a run in which every step
  returns: ten steps, each closed before the next is opened.
\<close>

definition hook_calls :: "'r obj \<Rightarrow> string \<Rightarrow> 'r call list" where
  "hook_calls config agentName =
     (case get_prop config ''configureAgentSettings'' of
        JHook body \<Rightarrow> map (hook_call config agentName) body
      | _ \<Rightarrow> [])"

definition step_events :: "string \<Rightarrow> 'r call list \<Rightarrow> 'r event list" where
  "step_events title calls = StepBegin title # map Call calls @ [StepEnd title]"

definition lifecycle_events :: "'r obj \<Rightarrow> string \<Rightarrow> 'r event list" where
  "lifecycle_events config agentName =
     step_events (''Navigate to agents page and select '' @
                    template_value (get_prop config ''agentDisplayName''))
       [SelectAgent (get_prop config ''agentDisplayName'')] @
     step_events ''Configure agent with all required settings''
       (hook_calls config agentName @ [PageWaitForLoadState ''networkidle'']) @
     step_events ''Deploy the agent'' [ActivateAgent] @
     step_events ''Verify agent appears in Your Agents section''
       [ExpectAgentVisible agentName] @
     step_events ''Verify agent persistence after page refresh''
       [RefreshAndExpectAgentVisible agentName] @
     step_events ''SKIPPED: Execute agent immediately and verify successful run'' [] @
     step_events ''Modify agent schedule configuration''
       [EditAgent agentName, UpdateSchedule (get_prop config ''updatedSchedule''),
        SaveChanges] @
     step_events ''Verify schedule update is displayed and persisted''
       [ExpectAgentSchedule agentName (get_prop config ''updatedSchedule''),
        RefreshAndExpectAgentSchedule agentName (get_prop config ''updatedSchedule'')] @
     step_events ''Delete the agent'' [DeleteAgent agentName] @
     step_events ''Verify agent deletion is complete and persistent''
       [RefreshAndExpectAgentNotVisible agentName]"

fun is_run_now :: "'r event \<Rightarrow> bool" where
  "is_run_now (Call (RunNowAgent n)) = True"
| "is_run_now _ = False"

text \<open>
  How a piece of test code relates to the trace of its complete run: a run that returns
  has produced exactly that trace, a run that throws a prefix of it (a proper prefix for
  \<open>traces_short\<close>).
\<close>

definition traces :: "('p, 'r) run \<Rightarrow> 'r event list \<Rightarrow> bool" where
  "traces f full =
     (\<forall>p. case f p of (es, Inl e) \<Rightarrow> prefix es full | (es, Inr p') \<Rightarrow> es = full)"

definition traces_short :: "('p, 'r) run \<Rightarrow> 'r event list \<Rightarrow> bool" where
  "traces_short f full =
     (\<forall>p. case f p of (es, Inl e) \<Rightarrow> strict_prefix es full | (es, Inr p') \<Rightarrow> es = full)"

section \<open>A small application for concrete runs\<close>

text \<open>
  A page of a toy application, to evaluate the page object and the test on: the listing
  of deployed agents, the name typed into the form, the pattern of the card whose menu
  is open and the status the run-agent endpoint answers with. Nothing changes between
  the attempts of a retrying assertion.
\<close>

record toy_page =
  listing :: "para list"
  form_name :: string
  menu_of :: string
  run_status :: nat

fun toy_perform :: "action \<Rightarrow> toy_page \<Rightarrow> error + toy_page" where
  "toy_perform (Click (CardMenuButton pattern)) p =
     (if list_ex (\<lambda>q. name_pattern (para_text q) = pattern) (listing p)
      then Inr (p\<lparr>menu_of := pattern\<rparr>)
      else Inl (TimeoutError ''locator.click''))"
| "toy_perform (Click (DialogButton s)) p =
     Inr (p\<lparr>listing := filter (\<lambda>q. name_pattern (para_text q) \<noteq> menu_of p) (listing p)\<rparr>)"
| "toy_perform a p = Inr p"

fun toy_other_method :: "nat call \<Rightarrow> toy_page \<Rightarrow> error + toy_page" where
  "toy_other_method (Settings SetAgentName (JString n)) p = Inr (p\<lparr>form_name := n\<rparr>)"
| "toy_other_method ActivateAgent p =
     Inr (p\<lparr>listing := listing p @ [\<lparr>para_text = form_name p, para_visible = True\<rparr>]\<rparr>)"
| "toy_other_method c p = Inr p"

definition toy_browser :: "(toy_page, nat) browser" where
  "toy_browser =
     \<lparr>perform = toy_perform,
      retries = (\<lambda>timeout p. []),
      card_paragraphs = listing,
      regexp = (\<lambda>pattern. Inl (Error ''SyntaxError'')),
      response = (\<lambda>p0 p1. Inr (run_status p1, p1)),
      other_method = toy_other_method\<rparr>"

definition toy_listing :: "string list \<Rightarrow> toy_page" where
  "toy_listing names =
     \<lparr>listing = map (\<lambda>n. \<lparr>para_text = n, para_visible = True\<rparr>) names,
      form_name = [], menu_of = [], run_status = 200\<rparr>"

text \<open>Pages and configs used in the concrete evaluations below.\<close>

definition failing_run_page :: toy_page where
  "failing_run_page = (toy_listing [''Foo_AB12CD34''])\<lparr>run_status := 500\<rparr>"

definition two_agents :: toy_page where
  "two_agents = toy_listing [''Foo_AB12CD34'', ''Foo_AB12'']"

definition one_agent_left :: toy_page where
  "one_agent_left = (toy_listing [''Foo_AB12''])\<lparr>menu_of := name_pattern ''Foo_AB12CD34''\<rparr>"

definition monitor_config :: "nat obj" where
  "monitor_config = AGENT_TEST_CONFIGS sample_rand ! 0"

definition monitor_name :: string where
  "monitor_name = ''Monitorappversionschanges_AB12CD34''"

definition after_lifecycle :: toy_page where
  "after_lifecycle =
     \<lparr>listing = [], form_name = monitor_name, menu_of = name_pattern monitor_name,
      run_status = 200\<rparr>"


section \<open>Properties of the configuration module\<close>

declare number_toString.simps [simp del]

lemma replace_space_runs_filter:
  "replace_space_runs s = filter (\<lambda>c. \<not> is_space c) s"
proof (induction s rule: replace_space_runs.induct)
  case 1
  show ?case by simp
next
  case (2 c cs)
  have drop: "filter (\<lambda>c. \<not> is_space c) (dropWhile is_space cs) = filter (\<lambda>c. \<not> is_space c) cs"
    by (induction cs) auto
  from 2 show ?case by (simp add: drop)
qed

lemma default_fields_not_getAgentName:
  "F \<in> set default_fields \<Longrightarrow> F \<noteq> ''getAgentName''"
  by (auto simp: default_fields_def)

lemma resolve_config_field:
  "K \<noteq> ''getAgentName'' \<Longrightarrow> resolve_config g entry K = (DEFAULT_CONFIG ++ entry) K"
  by (simp add: resolve_config_def)

lemma sample_rand_8: "sample_rand 8 k = (''AB12CD34'', Suc k)"
  by (simp add: sample_rand_def eval_nat_numeral)

lemma default_name_installed:
  assumes "\<not> truthy (get_prop entry ''getAgentName'')"
  shows "call_getAgentName (resolve_config g entry) =
         createDefaultGetAgentName g (get_prop entry ''agentDisplayName'')"
  using assms by (simp add: call_getAgentName_def resolve_config_def get_prop_def fun_eq_iff)

lemma default_name_value:
  "createDefaultGetAgentName g (JString d) r =
     (Inr (filter (\<lambda>c. \<not> is_space c) d @ ''_'' @ fst (g 8 r)), snd (g 8 r))"
  by (simp add: createDefaultGetAgentName_def replace_space_runs_filter split: prod.splits)

text \<open>
  C1. For every entry of a registry and every field \<open>F\<close> of \<open>DEFAULT_CONFIG\<close> (user,
  appID, slackChannel, initialSchedule, updatedSchedule), the resolved config has the
  entry's value for \<open>F\<close> when the entry has the property \<open>F\<close> and the default's value when
  it has not; the resolved list is as long as the registry and the merge is the
  last-write-wins merge \<^verbatim>\<open>{...defaults, ...entry}\<close>.
\<close>

theorem defaulting_override_wins:
  assumes "i < length entries" and "F \<in> set default_fields"
  shows "length (resolve_all g entries) = length entries \<and>
         (resolve_all g entries ! i) F =
           (case (entries ! i) F of Some v \<Rightarrow> Some v | None \<Rightarrow> DEFAULT_CONFIG F) \<and>
         (resolve_all g entries ! i) F = (DEFAULT_CONFIG ++ (entries ! i)) F"
proof -
  from assms(2) have ne: "F \<noteq> ''getAgentName''" by (rule default_fields_not_getAgentName)
  have "(resolve_all g entries ! i) F = (DEFAULT_CONFIG ++ (entries ! i)) F"
    using assms(1) ne by (simp add: resolve_all_def resolve_config_field)
  then show ?thesis
    by (auto simp: resolve_all_def map_add_def split: option.splits)
qed

theorem defaulting_override_wins_witness:
  "1 < length (AGENT_CONFIGS :: nat obj list) \<and> ''updatedSchedule'' \<in> set default_fields \<and>
   (resolve_all sample_rand AGENT_CONFIGS ! 1) ''updatedSchedule'' =
     Some (JString ''Weekly on Monday'') \<and>
   (resolve_all sample_rand AGENT_CONFIGS ! 1) ''user'' =
     Some (JString ''qualityguild.advertiser'')"
proof -
  have l: "1 < length (AGENT_CONFIGS :: nat obj list)" by (simp add: AGENT_CONFIGS_def)
  have f1: "''updatedSchedule'' \<in> set default_fields" by (simp add: default_fields_def)
  have f2: "''user'' \<in> set default_fields" by (simp add: default_fields_def)
  show ?thesis
    using l f1 defaulting_override_wins [OF l f1, of sample_rand]
      defaulting_override_wins [OF l f2, of sample_rand]
    by (simp add: AGENT_CONFIGS_def DEFAULT_CONFIG_def)
qed

text \<open>
  C2 (the code at an input where it departs from the claim). For the entry with display
  name \<^verbatim>\<open>Ad-hoc report\<close> and no \<^verbatim>\<open>getAgentName\<close>, the installed generator returns
  \<^verbatim>\<open>Ad-hocreport_AB12CD34\<close> on the sample random source: the white space is removed, the
  hyphen is kept.
\<close>

theorem default_name_keeps_special_characters:
  "call_getAgentName (resolve_config sample_rand ad_hoc_entry) 0 =
     (Inr ''Ad-hocreport_AB12CD34'', 1)"
  by (simp add: default_name_installed default_name_value ad_hoc_entry_def get_prop_def
      sample_rand_8 is_space_def)

text \<open>
  C3, as amended. Resolution checks the presence of no field and succeeds for every
  registry, with one resolved config per entry. An entry without \<^verbatim>\<open>agentDisplayName\<close> or
  without \<^verbatim>\<open>configureAgentSettings\<close> resolves to a config without that property; for an
  entry with neither \<^verbatim>\<open>agentDisplayName\<close> nor \<^verbatim>\<open>getAgentName\<close> the failure is a
  \<^verbatim>\<open>TypeError\<close> thrown later, when the installed generator is called.
\<close>

theorem resolution_has_no_presence_check:
  "\<exists>cs. load_configs g entries = Inr cs \<and> length cs = length entries \<and>
     (\<forall>i < length entries.
        ((entries ! i) ''agentDisplayName'' = None \<longrightarrow> (cs ! i) ''agentDisplayName'' = None) \<and>
        ((entries ! i) ''configureAgentSettings'' = None \<longrightarrow>
           (cs ! i) ''configureAgentSettings'' = None) \<and>
        ((entries ! i) ''agentDisplayName'' = None \<and> (entries ! i) ''getAgentName'' = None \<longrightarrow>
           (\<forall>r. call_getAgentName (cs ! i) r =
                 (Inl (TypeError ''Cannot read properties of undefined''), r))))"
  by (auto simp: load_configs_def resolve_all_def resolve_config_def DEFAULT_CONFIG_def
      map_add_def call_getAgentName_def get_prop_def createDefaultGetAgentName_def)

theorem resolution_has_no_presence_check_witness:
  "\<exists>cs. load_configs sample_rand [Map.empty] = Inr cs \<and> length cs = 1 \<and>
        (cs ! 0) ''agentDisplayName'' = None \<and> (cs ! 0) ''configureAgentSettings'' = None \<and>
        call_getAgentName (cs ! 0) 0 =
          (Inl (TypeError ''Cannot read properties of undefined''), 0)"
  using resolution_has_no_presence_check [of sample_rand "[Map.empty]"]
  by auto

text \<open>
  C3 as stated fails: registries whose only entry omits both required fields, only the
  hook, or only the display name all load without an error.
\<close>

theorem omitted_required_fields_load:
  "\<not> isl (load_configs sample_rand [Map.empty]) \<and>
   \<not> isl (load_configs sample_rand [[''agentDisplayName'' \<mapsto> JString ''No hook'']]) \<and>
   \<not> isl (load_configs sample_rand [[''configureAgentSettings'' \<mapsto> JHook monitor_hook]])"
  by (simp add: load_configs_def)

text \<open>
  C8, as amended. The resolved entry with display name \<^verbatim>\<open>Monitor app versions changes\<close>
  has appID \<^verbatim>\<open>android.non.organic.regular\<close>, initialSchedule \<^verbatim>\<open>Daily at 6:00 PM\<close>,
  updatedSchedule \<^verbatim>\<open>Daily at 12:00 PM\<close> and slackChannel
  \<^verbatim>\<open>rnd-arch-data-availability-poc\<close>, and its \<^verbatim>\<open>getAgentName\<close> returns
  \<^verbatim>\<open>Monitorappversionschanges\<close>, an underscore, and the string that
  \<^verbatim>\<open>generateRandString(8)\<close> returns.
\<close>

theorem monitor_entry_resolved:
  "\<exists>c. find (has_display_name ''Monitor app versions changes'') (AGENT_TEST_CONFIGS g) = Some c \<and>
       c ''appID'' = Some (JString ''android.non.organic.regular'') \<and>
       c ''initialSchedule'' = Some (JString ''Daily at 6:00 PM'') \<and>
       c ''updatedSchedule'' = Some (JString ''Daily at 12:00 PM'') \<and>
       c ''slackChannel'' = Some (JString ''rnd-arch-data-availability-poc'') \<and>
       (\<forall>r. call_getAgentName c r =
              (Inr (''Monitorappversionschanges'' @ ''_'' @ fst (g 8 r)), snd (g 8 r)))"
proof -
  let ?e = "[''agentDisplayName'' \<mapsto> JString ''Monitor app versions changes'',
       ''configureAgentSettings'' \<mapsto> JHook monitor_hook] :: 'a obj"
  let ?c = "resolve_config g ?e"
  have f: "find (has_display_name ''Monitor app versions changes'') (AGENT_TEST_CONFIGS g) =
             Some ?c"
    by (simp add: AGENT_TEST_CONFIGS_def AGENT_CONFIGS_def resolve_all_def has_display_name_def
        get_prop_def resolve_config_def)
  have n: "call_getAgentName ?c r =
              (Inr (''Monitorappversionschanges'' @ ''_'' @ fst (g 8 r)), snd (g 8 r))" for r
    by (simp add: default_name_installed default_name_value get_prop_def is_space_def)
  have v: "?c ''appID'' = Some (JString ''android.non.organic.regular'')"
     "?c ''initialSchedule'' = Some (JString ''Daily at 6:00 PM'')"
     "?c ''updatedSchedule'' = Some (JString ''Daily at 12:00 PM'')"
     "?c ''slackChannel'' = Some (JString ''rnd-arch-data-availability-poc'')"
    by (simp_all add: resolve_config_def DEFAULT_CONFIG_def)
  from f n v show ?thesis by blast
qed

text \<open>
  C8 as stated fails: on the sample random source the name is
  \<^verbatim>\<open>Monitorappversionschanges_AB12CD34\<close>, which is not \<^verbatim>\<open>Monitorappversionschanges\<close>
  followed directly by eight characters.
\<close>

theorem monitor_name_has_separator:
  "fst (call_getAgentName (AGENT_TEST_CONFIGS sample_rand ! 0) 0) =
     Inr ''Monitorappversionschanges_AB12CD34'' \<and>
   \<not> (\<exists>s. length s = 8 \<and>
          fst (call_getAgentName (AGENT_TEST_CONFIGS sample_rand ! 0) 0) =
            Inr (''Monitorappversionschanges'' @ s))"
proof -
  have n: "fst (call_getAgentName (AGENT_TEST_CONFIGS sample_rand ! 0) 0) =
             Inr ''Monitorappversionschanges_AB12CD34''"
    by (simp add: AGENT_TEST_CONFIGS_def AGENT_CONFIGS_def resolve_all_def
        default_name_installed default_name_value get_prop_def is_space_def sample_rand_8)
  show ?thesis unfolding n by auto
qed

text \<open>
  C10. If an entry has one of the five defaultable fields as a property with the value
  \<^verbatim>\<open>undefined\<close>, the resolved config has \<^verbatim>\<open>undefined\<close> for that field, not the default, and
  is not fully populated.
\<close>

theorem explicit_undefined_overrides_default:
  assumes "F \<in> set default_fields" and "entry F = Some JUndefined"
  shows "resolve_config g entry F = Some JUndefined \<and>
         resolve_config g entry F \<noteq> DEFAULT_CONFIG F \<and>
         \<not> fully_populated (resolve_config g entry)"
proof -
  from assms(1) have ne: "F \<noteq> ''getAgentName''" by (rule default_fields_not_getAgentName)
  have r: "resolve_config g entry F = Some JUndefined"
    using ne assms(2) by (simp add: resolve_config_field)
  have d: "(DEFAULT_CONFIG :: 'a obj) F \<noteq> Some JUndefined"
    using assms(1) by (auto simp: default_fields_def DEFAULT_CONFIG_def)
  have "\<not> is_string (get_prop (resolve_config g entry) F)"
    using r by (simp add: get_prop_def)
  then have "\<not> fully_populated (resolve_config g entry)"
    using assms(1) by (auto simp: fully_populated_def list_all_iff)
  with r d show ?thesis by simp
qed

theorem explicit_undefined_overrides_default_witness:
  "''appID'' \<in> set default_fields \<and>
   undefined_appID_entry ''appID'' = Some JUndefined \<and>
   resolve_config sample_rand undefined_appID_entry ''appID'' = Some JUndefined \<and>
   \<not> fully_populated (resolve_config sample_rand undefined_appID_entry)"
proof -
  have f: "''appID'' \<in> set default_fields" by (simp add: default_fields_def)
  have e: "undefined_appID_entry ''appID'' = Some JUndefined"
    by (simp add: undefined_appID_entry_def)
  from explicit_undefined_overrides_default
         [where F = "''appID''" and entry = undefined_appID_entry and g = sample_rand] f e
  show ?thesis by simp
qed

text \<open>
  Two names of the default generator for one display name are equal exactly when the
  two random suffixes are.
\<close>

lemma default_names_equal_iff_suffixes_equal:
  "fst (createDefaultGetAgentName g (JString d) r1) =
     fst (createDefaultGetAgentName g (JString d) r2) \<longleftrightarrow>
   fst (g 8 r1) = fst (g 8 r2)"
  by (simp add: default_name_value)

section \<open>Properties of the page object\<close>

lemma parse_pattern_literal:
  "list_all (\<lambda>c. \<not> syntax_char c) n \<Longrightarrow>
   parse_pattern (n @ rest) = map_option ((@) (map Lit n)) (parse_pattern rest)"
proof (induction n)
  case Nil
  show ?case by (simp add: option.map_ident)
next
  case (Cons c n)
  from Cons.prems have c: "\<not> syntax_char c" and n: "list_all (\<lambda>c. \<not> syntax_char c) n"
    by simp_all
  from c have "c \<noteq> CHR ''^''" "c \<noteq> CHR ''$''" "c \<noteq> CHR ''.''"
    by (auto simp: syntax_char_def)
  with c Cons.IH [OF n] show ?case
    by (simp add: option.map_comp comp_def)
qed

lemma parse_name_pattern:
  assumes "literal_name n"
  shows "parse_pattern (name_pattern n) = Some (InputStart # map Lit n @ [InputEnd])"
proof -
  have "parse_pattern (n @ ''$'') = Some (map Lit n @ [InputEnd])"
    using assms by (simp add: parse_pattern_literal literal_name_def)
  then show ?thesis by (simp add: name_pattern_def)
qed

lemma match_here_literals:
  "match_here (map Lit n @ [InputEnd]) at_start input = (input = n)"
proof (induction n arbitrary: input at_start)
  case Nil
  show ?case by simp
next
  case (Cons c n)
  show ?case by (cases input) (auto simp: Cons.IH)
qed

lemma regexp_search_not_at_start:
  "regexp_search (InputStart # as) False input = False"
  by (induction input) simp_all

lemma regexp_search_name:
  "regexp_search (InputStart # map Lit n @ [InputEnd]) True input = (input = n)"
  by (cases input) (simp_all add: match_here_literals regexp_search_not_at_start)

lemma new_RegExp_literal_name:
  "literal_name n \<Longrightarrow> new_RegExp engine (name_pattern n) = Inr (\<lambda>input. input = n)"
  by (simp add: new_RegExp_def parse_name_pattern regexp_search_name fun_eq_iff)

lemma expect_retrying_Inr:
  assumes "expect_retrying b t holds m p = Inr p'"
  shows "holds p' \<and> p' \<in> set (p # retries b t p)"
proof -
  from assms have "find holds (p # retries b t p) = Some p'"
    by (auto simp: expect_retrying_def split: option.splits)
  then show ?thesis
    unfolding find_Some_iff by (metis nth_mem)
qed

text \<open>
  C4, as amended. The name is put into the pattern \<^verbatim>\<open>^name$\<close> without escaping. For a
  name without a syntax character of regular expressions the pattern matches a text
  exactly when the text is the name in full, so an entity named \<^verbatim>\<open>Foo_AB12CD34\<close> is not
  matched by a query for \<^verbatim>\<open>Foo_AB12\<close>; and when \<^verbatim>\<open>expectAgentVisible\<close> returns, the page
  it observed has at least one card paragraph whose text is the name, the first of them
  visible. That the name occurs exactly once is not asserted.
\<close>

theorem verify_created_exact_match:
  assumes "literal_name agentName"
  shows "new_RegExp (regexp b) (name_pattern agentName) = Inr (\<lambda>text. text = agentName) \<and>
         (\<forall>p p'. expectAgentVisible b agentName p = Inr p' \<longrightarrow>
            (\<exists>q qs. filter (\<lambda>q. para_text q = agentName) (card_paragraphs b p') = q # qs \<and>
                    para_visible q))"
proof (intro conjI allI impI)
  show re: "new_RegExp (regexp b) (name_pattern agentName) = Inr (\<lambda>text. text = agentName)"
    using assms by (rule new_RegExp_literal_name)
  fix p p'
  assume "expectAgentVisible b agentName p = Inr p'"
  then obtain p1 where
    "expect_retrying b 15000
       (\<lambda>p'. first_toBeVisible (agent_name_paragraphs b (\<lambda>text. text = agentName) p'))
       ''expect(locator).toBeVisible()'' p1 = Inr p'"
    by (auto simp: expectAgentVisible_def re split: sum.splits)
  then have "first_toBeVisible (agent_name_paragraphs b (\<lambda>text. text = agentName) p')"
    by (auto dest: expect_retrying_Inr)
  then show "\<exists>q qs. filter (\<lambda>q. para_text q = agentName) (card_paragraphs b p') = q # qs \<and>
                    para_visible q"
    by (auto simp: first_toBeVisible_def agent_name_paragraphs_def split: list.splits)
qed

lemma literal_Foo: "literal_name ''Foo_AB12CD34''" "literal_name ''Foo_AB12''"
  by (simp_all add: literal_name_def syntax_char_def)

theorem verify_created_exact_match_witness:
  "literal_name ''Foo_AB12CD34'' \<and>
   expectAgentVisible toy_browser ''Foo_AB12CD34'' (toy_listing [''Foo_AB12'', ''Foo_AB12CD34'']) =
     Inr (toy_listing [''Foo_AB12'', ''Foo_AB12CD34'']) \<and>
   (\<exists>q qs. filter (\<lambda>q. para_text q = ''Foo_AB12CD34'')
       (card_paragraphs toy_browser (toy_listing [''Foo_AB12'', ''Foo_AB12CD34''])) = q # qs \<and>
     para_visible q)"
proof -
  have l: "literal_name ''Foo_AB12CD34''" by (simp add: literal_name_def syntax_char_def)
  have run: "expectAgentVisible toy_browser ''Foo_AB12CD34''
               (toy_listing [''Foo_AB12'', ''Foo_AB12CD34'']) =
             Inr (toy_listing [''Foo_AB12'', ''Foo_AB12CD34''])"
    by (simp add: expectAgentVisible_def new_RegExp_literal_name l waitForPageLoad_def
        toy_browser_def expect_retrying_def first_toBeVisible_def agent_name_paragraphs_def
        toy_listing_def)
  from verify_created_exact_match [OF l, of toy_browser] run l show ?thesis by blast
qed

text \<open>The example of the specification: a query for a proper prefix of a name fails.\<close>

lemma exact_match_isolation:
  "expectAgentVisible toy_browser ''Foo_AB12'' (toy_listing [''Foo_AB12CD34'']) =
     Inl (AssertionError ''expect(locator).toBeVisible()'')"
  by (simp add: expectAgentVisible_def new_RegExp_literal_name literal_Foo waitForPageLoad_def
      toy_browser_def expect_retrying_def first_toBeVisible_def agent_name_paragraphs_def
      toy_listing_def)

text \<open>
  C4 as stated fails: the assertion passes on a listing that shows the name twice, and
  for a name with a syntax character (\<^verbatim>\<open>Ad.hoc_AB12\<close>) it passes on a listing whose
  only entity has another name (\<^verbatim>\<open>Ad-hoc_AB12\<close>).
\<close>

theorem verify_created_not_exactly_once:
  "expectAgentVisible toy_browser ''Foo_AB12CD34'' (toy_listing [''Foo_AB12CD34'', ''Foo_AB12CD34'']) =
     Inr (toy_listing [''Foo_AB12CD34'', ''Foo_AB12CD34'']) \<and>
   expectAgentVisible toy_browser ''Ad.hoc_AB12'' (toy_listing [''Ad-hoc_AB12'']) =
     Inr (toy_listing [''Ad-hoc_AB12''])"
proof -
  have "parse_pattern (name_pattern ''Ad.hoc_AB12'') =
    Some (InputStart # map Lit ''Ad'' @ AnyChar # map Lit ''hoc_AB12'' @ [InputEnd])"
    by (simp add: name_pattern_def syntax_char_def)
  then have "new_RegExp engine (name_pattern ''Ad.hoc_AB12'') = Inr (regexp_search
      (InputStart # map Lit ''Ad'' @ AnyChar # map Lit ''hoc_AB12'' @ [InputEnd]) True)" for engine
    by (simp add: new_RegExp_def)
  then show ?thesis
    by (simp add: expectAgentVisible_def new_RegExp_literal_name literal_Foo waitForPageLoad_def
      toy_browser_def expect_retrying_def first_toBeVisible_def agent_name_paragraphs_def
      toy_listing_def line_terminator_def)
qed

lemma number_toString_500: "number_toString 500 = ''500''"
  by (simp add: number_toString.simps [of 500] number_toString.simps [of 50]
      number_toString.simps [of 5])

lemma digit_char:
  assumes "d < 10"
  shows "digit_value (''0123456789'' ! d) = d" and "is_digit (''0123456789'' ! d)"
proof -
  from assms have "d \<in> {0, 1, 2, 3, 4, 5, 6, 7, 8, 9}" by auto
  then show "digit_value (''0123456789'' ! d) = d" and "is_digit (''0123456789'' ! d)"
    by (auto simp: digit_value_def is_digit_def)
qed

lemma decimal_value_snoc:
  "decimal_value (s @ [c]) = 10 * decimal_value s + digit_value c"
  by (simp add: decimal_value_def)

lemma decimal_value_number_toString: "decimal_value (number_toString n) = n"
proof (induction n rule: number_toString.induct)
  case (1 n)
  show ?case
  proof (cases "n < 10")
    case True
    then show ?thesis
      by (subst number_toString.simps) (simp add: decimal_value_def digit_char)
  next
    case False
    with 1 have "decimal_value (number_toString (n div 10)) = n div 10" by simp
    with False show ?thesis
      by (subst number_toString.simps) (simp add: decimal_value_snoc digit_char)
  qed
qed

lemma digits_number_toString: "list_all is_digit (number_toString n)"
proof (induction n rule: number_toString.induct)
  case (1 n)
  show ?case
  proof (cases "n < 10")
    case True
    then show ?thesis
      by (subst number_toString.simps) (simp add: digit_char)
  next
    case False
    with 1 have "list_all is_digit (number_toString (n div 10))" by simp
    with False show ?thesis
      by (subst number_toString.simps) (simp add: digit_char)
  qed
qed

lemma number_toString_not_Nil: "number_toString n \<noteq> []"
  by (subst number_toString.simps) simp

lemma no_leading_zero: "hd (number_toString n) = CHR ''0'' \<Longrightarrow> n = 0"
proof (induction n rule: number_toString.induct)
  case (1 n)
  show ?case
  proof (cases "n < 10")
    case True
    then have "n \<in> {0, 1, 2, 3, 4, 5, 6, 7, 8, 9}" by auto
    moreover from True "1.prems" have "''0123456789'' ! n = CHR ''0''"
      by (subst (asm) number_toString.simps) simp
    ultimately show ?thesis by auto
  next
    case False
    from False "1.prems" have "hd (number_toString (n div 10)) = CHR ''0''"
      by (subst (asm) number_toString.simps) (simp add: number_toString_not_Nil)
    with 1 False have "n div 10 = 0" by simp
    with False show ?thesis by simp
  qed
qed

text \<open>
  C5. When the menu clicks of \<^verbatim>\<open>runNowAgent\<close> succeed and the run-agent response is
  observed with a status, the method throws if and only if the status is not 200. The
  thrown message is \<^verbatim>\<open>Agent execution failed: Expected 200 but received\<close> followed by
  the status code: a string of decimal digits without a leading zero whose decimal
  value is the observed status. With status 200 the method returns.
\<close>

theorem run_now_fails_iff_status_not_200:
  assumes "new_RegExp (regexp b) (name_pattern agentName) = Inr re"
    and "awaits [perform b (Click (CardMenuButton (name_pattern agentName))),
                 perform b (WaitForVisible (MenuItem ''run now'')),
                 perform b (Click (MenuItem ''run now''))] p = Inr p1"
    and "response b p p1 = Inr (status, p2)"
  shows "(isl (runNowAgent b agentName p) \<longleftrightarrow> status \<noteq> 200) \<and>
         runNowAgent b agentName p =
           (if status = 200 then Inr p2
            else Inl (Error (''Agent execution failed: Expected 200 but received '' @
                               number_toString status))) \<and>
         list_all is_digit (number_toString status) \<and>
         decimal_value (number_toString status) = status \<and>
         (hd (number_toString status) = CHR ''0'' \<longrightarrow> status = 0) \<and>
         sublist (number_toString status)
           (''Agent execution failed: Expected 200 but received '' @ number_toString status)"
proof -
  have "runNowAgent b agentName p =
           (if status = 200 then Inr p2
            else Inl (Error (''Agent execution failed: Expected 200 but received '' @
                               number_toString status)))"
    unfolding runNowAgent_def assms(1) using assms(2,3) by simp
  moreover have "sublist (number_toString status)
           (''Agent execution failed: Expected 200 but received '' @ number_toString status)"
    by (rule sublist_append_leftI)
  moreover note digits_number_toString [of status] decimal_value_number_toString [of status]
    no_leading_zero [of status]
  ultimately show ?thesis by (simp del: sublist_append_leftI)
qed

theorem run_now_fails_iff_status_not_200_witness:
  "runNowAgent toy_browser ''Foo_AB12CD34'' failing_run_page =
     Inl (Error ''Agent execution failed: Expected 200 but received 500'') \<and>
   decimal_value ''500'' = 500 \<and>
   runNowAgent toy_browser ''Foo_AB12CD34'' (toy_listing [''Foo_AB12CD34'']) =
     Inr ((toy_listing [''Foo_AB12CD34''])\<lparr>menu_of := name_pattern ''Foo_AB12CD34''\<rparr>)"
proof -
  let ?n = "''Foo_AB12CD34''"
  have re: "new_RegExp (regexp toy_browser) (name_pattern ?n) = Inr (\<lambda>t. t = ?n)"
    by (simp add: new_RegExp_literal_name literal_Foo)
  have c1: "awaits [perform toy_browser (Click (CardMenuButton (name_pattern ?n))),
                 perform toy_browser (WaitForVisible (MenuItem ''run now'')),
                 perform toy_browser (Click (MenuItem ''run now''))] failing_run_page =
            Inr (failing_run_page\<lparr>menu_of := name_pattern ?n\<rparr>)"
    by (simp add: toy_browser_def failing_run_page_def toy_listing_def)
  have r1: "response toy_browser failing_run_page (failing_run_page\<lparr>menu_of := name_pattern ?n\<rparr>) =
            Inr (500, failing_run_page\<lparr>menu_of := name_pattern ?n\<rparr>)"
    by (simp add: toy_browser_def failing_run_page_def toy_listing_def)
  have c2: "awaits [perform toy_browser (Click (CardMenuButton (name_pattern ?n))),
                 perform toy_browser (WaitForVisible (MenuItem ''run now'')),
                 perform toy_browser (Click (MenuItem ''run now''))] (toy_listing [?n]) =
            Inr ((toy_listing [?n])\<lparr>menu_of := name_pattern ?n\<rparr>)"
    by (simp add: toy_browser_def toy_listing_def)
  have r2: "response toy_browser (toy_listing [?n]) ((toy_listing [?n])\<lparr>menu_of := name_pattern ?n\<rparr>) =
            Inr (200, (toy_listing [?n])\<lparr>menu_of := name_pattern ?n\<rparr>)"
    by (simp add: toy_browser_def toy_listing_def)
  from run_now_fails_iff_status_not_200 [OF re c1 r1]
       run_now_fails_iff_status_not_200 [OF re c2 r2]
  show ?thesis by (simp add: number_toString_500)
qed


lemma expectAgentNotVisible_Inr:
  assumes "new_RegExp (regexp b) (name_pattern agentName) = Inr re"
    and "expectAgentNotVisible b agentName p = Inr p'"
  shows "(\<forall>q \<in> set (card_paragraphs b p'). \<not> re (para_text q)) \<and>
         (\<exists>p1. waitForPageLoad b p = Inr p1 \<and> p' \<in> set (p1 # retries b 30000 p1))"
proof -
  from assms obtain p1 where w: "waitForPageLoad b p = Inr p1"
    and e: "expect_retrying b 30000 (\<lambda>p'. toHaveCount 0 (agent_name_paragraphs b re p'))
              ''expect(locator).toHaveCount(0)'' p1 = Inr p'"
    by (auto simp: expectAgentNotVisible_def split: sum.splits)
  from expect_retrying_Inr [OF e] have "filter (\<lambda>q. re (para_text q)) (card_paragraphs b p') = []"
    and "p' \<in> set (p1 # retries b 30000 p1)"
    by (auto simp: toHaveCount_def agent_name_paragraphs_def)
  with w show ?thesis
    by (auto simp: filter_empty_conv)
qed


section \<open>Properties of the lifecycle test\<close>

lemma traces_agentsPage: "traces (agentsPage b c) [Call c]"
  by (simp add: traces_def agentsPage_def split: sum.splits)

lemma traces_sequentially:
  "list_all2 traces fs fulls \<Longrightarrow> traces (in_sequence fs) (concat fulls)"
proof (induction fs fulls rule: list_all2_induct)
  case Nil
  show ?case by (simp add: traces_def)
next
  case (Cons f fs full fulls)
  show ?case
    unfolding traces_def
  proof
    fix p
    from Cons.hyps(1) have f: "case f p of (es, Inl e) \<Rightarrow> prefix es full | (es, Inr p') \<Rightarrow> es = full"
      by (simp add: traces_def)
    show "case in_sequence (f # fs) p of
            (es, Inl e) \<Rightarrow> prefix es (concat (full # fulls))
          | (es, Inr p') \<Rightarrow> es = concat (full # fulls)"
    proof (cases "f p")
      case (Pair es r)
      show ?thesis
      proof (cases r)
        case (Inl e)
        with Pair f show ?thesis by (simp add: prefix_def) (metis append.assoc)
      next
        case (Inr p')
        from Cons.IH have "case in_sequence fs p' of
            (es, Inl e) \<Rightarrow> prefix es (concat fulls) | (es, Inr p'') \<Rightarrow> es = concat fulls"
          by (simp add: traces_def)
        with Pair Inr f show ?thesis
          by (auto split: prod.splits sum.splits)
      qed
    qed
  qed
qed

lemma traces_short_sequentially:
  "list_all2 traces_short fs fulls \<Longrightarrow> traces_short (in_sequence fs) (concat fulls)"
proof (induction fs fulls rule: list_all2_induct)
  case Nil
  show ?case by (simp add: traces_short_def)
next
  case (Cons f fs full fulls)
  show ?case
    unfolding traces_short_def
  proof
    fix p
    from Cons.hyps(1) have f: "case f p of (es, Inl e) \<Rightarrow> strict_prefix es full | (es, Inr p') \<Rightarrow> es = full"
      by (simp add: traces_short_def)
    show "case in_sequence (f # fs) p of
            (es, Inl e) \<Rightarrow> strict_prefix es (concat (full # fulls))
          | (es, Inr p') \<Rightarrow> es = concat (full # fulls)"
    proof (cases "f p")
      case (Pair es r)
      show ?thesis
      proof (cases r)
        case (Inl e)
        with Pair f have "strict_prefix es full" by simp
        then have "strict_prefix es (full @ concat fulls)"
          by (meson prefix_append prefix_order.less_le_trans prefix_order.order_refl)
        with Pair Inl show ?thesis by simp
      next
        case (Inr p')
        from Cons.IH have "case in_sequence fs p' of
            (es, Inl e) \<Rightarrow> strict_prefix es (concat fulls) | (es, Inr p'') \<Rightarrow> es = concat fulls"
          by (simp add: traces_short_def)
        with Pair Inr f show ?thesis
          by (auto split: prod.splits sum.splits simp: strict_prefix_def)
      qed
    qed
  qed
qed

lemma traces_short_test_step:
  assumes "traces body full"
  shows "traces_short (test_step title body) (StepBegin title # full @ [StepEnd title])"
  unfolding traces_short_def
proof
  fix p
  from assms have "case body p of (es, Inl e) \<Rightarrow> prefix es full | (es, Inr p') \<Rightarrow> es = full"
    by (simp add: traces_def)
  then show "case test_step title body p of
          (es, Inl e) \<Rightarrow> strict_prefix es (StepBegin title # full @ [StepEnd title])
        | (es, Inr p') \<Rightarrow> es = StepBegin title # full @ [StepEnd title]"
    by (auto simp: test_step_def strict_prefix_def prefix_def split: prod.splits sum.splits)
qed

lemma traces_calls:
  "traces (in_sequence (map (agentsPage b) cs)) (map Call cs)"
proof -
  have "list_all2 traces (map (agentsPage b) cs) (map (\<lambda>c. [Call c]) cs)"
    by (simp add: list_all2_map1 list_all2_map2 list_all2_same traces_agentsPage)
  from traces_sequentially [OF this] show ?thesis
    by (simp add: concat_map_singleton)
qed

lemma traces_hook:
  "traces (call_configureAgentSettings b config r agentName)
     (map Call (hook_calls config agentName))"
proof (cases "get_prop config ''configureAgentSettings''")
  case (JHook body)
  have "traces (in_sequence (map (agentsPage b) (map (hook_call config agentName) body)))
          (map Call (map (hook_call config agentName) body))"
    by (rule traces_calls)
  then have "traces (in_sequence (map (\<lambda>s. agentsPage b (hook_call config agentName s)) body))
          (map Call (map (hook_call config agentName) body))"
    by (simp only: map_map comp_def)
  with JHook show ?thesis
    by (simp only: call_configureAgentSettings_def hook_calls_def jsval.case)
qed (simp_all add: call_configureAgentSettings_def hook_calls_def traces_def split: sum.splits)


lemma traces_short_step:
  "traces (in_sequence fs) (map Call cs) \<Longrightarrow>
   traces_short (test_step title (in_sequence fs)) (step_events title cs)"
  unfolding step_events_def by (rule traces_short_test_step)

lemma traces_one: "traces (in_sequence [agentsPage b c]) (map Call [c])"
  using traces_calls [of b "[c]"] by simp

lemma traces_configure:
  "traces (in_sequence [call_configureAgentSettings b config r' agentName,
                        agentsPage b (PageWaitForLoadState ''networkidle'')])
     (map Call (hook_calls config agentName @ [PageWaitForLoadState ''networkidle'']))"
proof -
  have "list_all2 traces
          [call_configureAgentSettings b config r' agentName,
           agentsPage b (PageWaitForLoadState ''networkidle'')]
          [map Call (hook_calls config agentName), [Call (PageWaitForLoadState ''networkidle'')]]"
    by (simp add: traces_hook traces_agentsPage)
  from traces_sequentially [OF this] show ?thesis by simp
qed

lemma lifecycle_traces:
  assumes "call_getAgentName config r = (Inr agentName, r')"
  shows "\<exists>f. traces_short f (lifecycle_events config agentName) \<and>
             lifecycle_test b config r p = (f p, r')"
proof -
  let ?fs = "[test_step (''Navigate to agents page and select '' @
                          template_value (get_prop config ''agentDisplayName''))
               (in_sequence
                 [agentsPage b (SelectAgent (get_prop config ''agentDisplayName''))]),
             test_step ''Configure agent with all required settings''
               (in_sequence
                 [call_configureAgentSettings b config r' agentName,
                  agentsPage b (PageWaitForLoadState ''networkidle'')]),
             test_step ''Deploy the agent''
               (in_sequence [agentsPage b ActivateAgent]),
             test_step ''Verify agent appears in Your Agents section''
               (in_sequence [agentsPage b (ExpectAgentVisible agentName)]),
             test_step ''Verify agent persistence after page refresh''
               (in_sequence [agentsPage b (RefreshAndExpectAgentVisible agentName)]),
             test_step ''SKIPPED: Execute agent immediately and verify successful run''
               (in_sequence []),
             test_step ''Modify agent schedule configuration''
               (in_sequence
                 [agentsPage b (EditAgent agentName),
                  agentsPage b (UpdateSchedule (get_prop config ''updatedSchedule'')),
                  agentsPage b SaveChanges]),
             test_step ''Verify schedule update is displayed and persisted''
               (in_sequence
                 [agentsPage b
                    (ExpectAgentSchedule agentName (get_prop config ''updatedSchedule'')),
                  agentsPage b
                    (RefreshAndExpectAgentSchedule agentName
                       (get_prop config ''updatedSchedule''))]),
             test_step ''Delete the agent''
               (in_sequence [agentsPage b (DeleteAgent agentName)]),
             test_step ''Verify agent deletion is complete and persistent''
               (in_sequence [agentsPage b (RefreshAndExpectAgentNotVisible agentName)])]"
  let ?fulls = "[step_events (''Navigate to agents page and select '' @
                    template_value (get_prop config ''agentDisplayName''))
       [SelectAgent (get_prop config ''agentDisplayName'')],
     step_events ''Configure agent with all required settings''
       (hook_calls config agentName @ [PageWaitForLoadState ''networkidle'']),
     step_events ''Deploy the agent'' [ActivateAgent],
     step_events ''Verify agent appears in Your Agents section''
       [ExpectAgentVisible agentName],
     step_events ''Verify agent persistence after page refresh''
       [RefreshAndExpectAgentVisible agentName],
     step_events ''SKIPPED: Execute agent immediately and verify successful run'' [],
     step_events ''Modify agent schedule configuration''
       [EditAgent agentName, UpdateSchedule (get_prop config ''updatedSchedule''),
        SaveChanges],
     step_events ''Verify schedule update is displayed and persisted''
       [ExpectAgentSchedule agentName (get_prop config ''updatedSchedule''),
        RefreshAndExpectAgentSchedule agentName (get_prop config ''updatedSchedule'')],
     step_events ''Delete the agent'' [DeleteAgent agentName],
     step_events ''Verify agent deletion is complete and persistent''
       [RefreshAndExpectAgentNotVisible agentName]]"
  have t3: "traces (in_sequence [agentsPage b c1, agentsPage b c2, agentsPage b c3])
              (map Call [c1, c2, c3])" for c1 c2 c3
    using traces_calls [of b "[c1, c2, c3]"] by simp
  have t2: "traces (in_sequence [agentsPage b c1, agentsPage b c2])
              (map Call [c1, c2])" for c1 c2
    using traces_calls [of b "[c1, c2]"] by simp
  have "list_all2 traces_short ?fs ?fulls"
    by (intro list_all2_Cons [THEN iffD2] conjI traces_short_step traces_one traces_configure
        t3 t2) (simp_all add: traces_def)
  from traces_short_sequentially [OF this]
  have "traces_short (in_sequence ?fs) (lifecycle_events config agentName)"
    by (simp only: lifecycle_events_def concat.simps append_Nil2)
  moreover have "lifecycle_test b config r p = (in_sequence ?fs p, r')"
    by (simp only: lifecycle_test_def assms prod.case sum.case)
  ultimately show ?thesis by blast
qed


lemma strict_prefix_list_ex:
  "strict_prefix es full \<Longrightarrow> \<not> list_ex P full \<Longrightarrow> \<not> list_ex P es"
  by (auto simp: strict_prefix_def prefix_def list_ex_iff)

lemma hook_call_not_run_now: "\<not> is_run_now (Call (hook_call config agentName s))"
  by (cases s) simp

lemma lifecycle_events_no_run_now: "\<not> list_ex is_run_now (lifecycle_events config agentName)"
proof -
  have "\<not> list_ex is_run_now (map Call (hook_calls config agentName))"
    by (cases "get_prop config ''configureAgentSettings''")
      (auto simp: hook_calls_def list_ex_iff hook_call_not_run_now)
  then show ?thesis
    by (simp add: lifecycle_events_def step_events_def)
qed

text \<open>
  C6. For every config, random source, browser and page: if \<^verbatim>\<open>getAgentName\<close> throws,
  no step is run; otherwise the trace of the test is \<open>lifecycle_events\<close> when the test
  returns and a proper prefix of it when it throws. So the steps run one after the other
  in the order select, configure (the calls of the hook, then the wait for network
  idle), deploy, verify visible, reload and verify visible, the skipped run-now step
  with no call, edit and update the schedule, verify the schedule and verify it after a
  reload, delete, reload and verify absent; a step is opened only after the one before
  it was closed, and \<^verbatim>\<open>runNowAgent\<close> is never called.
\<close>

theorem lifecycle_steps_in_order:
  "case call_getAgentName config r of
     (Inl e, r') \<Rightarrow> lifecycle_test b config r p = (([], Inl e), r')
   | (Inr agentName, r') \<Rightarrow>
       snd (lifecycle_test b config r p) = r' \<and>
       \<not> list_ex is_run_now (fst (fst (lifecycle_test b config r p))) \<and>
       (case fst (lifecycle_test b config r p) of
          (es, Inl e) \<Rightarrow> strict_prefix es (lifecycle_events config agentName)
        | (es, Inr p') \<Rightarrow> es = lifecycle_events config agentName)"
proof (cases "call_getAgentName config r")
  case (Pair res r')
  show ?thesis
  proof (cases res)
    case (Inl e)
    with Pair show ?thesis by (simp add: lifecycle_test_def)
  next
    case (Inr agentName)
    with Pair have g: "call_getAgentName config r = (Inr agentName, r')" by simp
    from lifecycle_traces [OF g, of b p] obtain f where
      f: "traces_short f (lifecycle_events config agentName)"
      and l: "lifecycle_test b config r p = (f p, r')"
      by blast
    from f have c: "case f p of
          (es, Inl e) \<Rightarrow> strict_prefix es (lifecycle_events config agentName)
        | (es, Inr p') \<Rightarrow> es = lifecycle_events config agentName"
      by (simp add: traces_short_def)
    then have "\<not> list_ex is_run_now (fst (f p))"
      using lifecycle_events_no_run_now [of config agentName]
      by (auto split: prod.splits sum.splits dest: strict_prefix_list_ex)
    with c l g show ?thesis by simp
  qed
qed

text \<open>
  A complete run on the toy application, for the first config of the registry.
\<close>

lemma monitor_config_props:
  "get_prop monitor_config ''agentDisplayName'' = JString ''Monitor app versions changes''"
  "get_prop monitor_config ''configureAgentSettings'' = JHook monitor_hook"
  "get_prop monitor_config ''updatedSchedule'' = JString ''Daily at 12:00 PM''"
  "get_prop monitor_config ''appID'' = JString ''android.non.organic.regular''"
  "get_prop monitor_config ''initialSchedule'' = JString ''Daily at 6:00 PM''"
  "get_prop monitor_config ''slackChannel'' = JString ''rnd-arch-data-availability-poc''"
  by (simp_all add: monitor_config_def AGENT_TEST_CONFIGS_def AGENT_CONFIGS_def resolve_all_def
      resolve_config_def get_prop_def DEFAULT_CONFIG_def)

lemma monitor_config_name: "call_getAgentName monitor_config 0 = (Inr monitor_name, 1)"
  by (simp add: monitor_config_def monitor_name_def AGENT_TEST_CONFIGS_def AGENT_CONFIGS_def
      resolve_all_def default_name_installed default_name_value get_prop_def is_space_def
      sample_rand_8)

lemma literal_monitor_name: "literal_name monitor_name"
  by (simp add: literal_name_def monitor_name_def syntax_char_def)

lemma monitor_run_result:
  "snd (fst (lifecycle_test toy_browser monitor_config 0 (toy_listing []))) = Inr after_lifecycle"
  by (simp add: lifecycle_test_def monitor_config_name monitor_config_props test_step_def
      agentsPage_def call_configureAgentSettings_def monitor_hook_def
      expectAgentVisible_def refreshAndExpectAgentVisible_def deleteAgent_def
      expectAgentNotVisible_def refreshAndExpectAgentNotVisible_def waitForPageLoad_def
      new_RegExp_literal_name literal_monitor_name expect_retrying_def first_toBeVisible_def
      toHaveCount_def agent_name_paragraphs_def toy_browser_def toy_listing_def
      after_lifecycle_def)

theorem lifecycle_steps_in_order_witness:
  "call_getAgentName monitor_config 0 = (Inr monitor_name, 1) \<and>
   lifecycle_test toy_browser monitor_config 0 (toy_listing []) =
     ((lifecycle_events monitor_config monitor_name, Inr after_lifecycle), 1)"
  using lifecycle_steps_in_order
      [where config = monitor_config and r = 0 and b = toy_browser and p = "toy_listing []"]
    monitor_run_result
  by (auto simp: monitor_config_name prod_eq_iff split: prod.splits sum.splits)

lemma name_pattern_eq: "name_pattern a = name_pattern b \<longleftrightarrow> a = b"
  by (simp add: name_pattern_def)

lemma in_sequence_last_two:
  "in_sequence (fs @ [f, g]) p = (es, Inr p') \<Longrightarrow>
   \<exists>p1 p2 e1 e2. f p1 = (e1, Inr p2) \<and> g p2 = (e2, Inr p')"
proof (induction fs arbitrary: p es)
  case Nil
  then show ?case by (auto split: prod.splits sum.splits)
next
  case (Cons h fs)
  from Cons.prems obtain e1 p1 e2 where "in_sequence (fs @ [f, g]) p1 = (e2, Inr p')"
    by (auto split: prod.splits sum.splits)
  then show ?case by (rule Cons.IH)
qed

lemma test_step_call_Inr:
  "test_step title (in_sequence [agentsPage b c]) p = (es, Inr p') \<Longrightarrow>
   method_body b c p = Inr p'"
  by (auto simp: test_step_def agentsPage_def split: prod.splits sum.splits)

lemma lifecycle_ends_with_deletion:
  assumes "call_getAgentName config r = (Inr agentName, r')"
    and "fst (lifecycle_test b config r p) = (es, Inr p')"
  shows "\<exists>p8 p9. deleteAgent b agentName p8 = Inr p9 \<and>
                 refreshAndExpectAgentNotVisible b agentName p9 = Inr p'"
proof -
  let ?d = "test_step ''Delete the agent''
               (in_sequence [agentsPage b (DeleteAgent agentName)])"
  let ?v = "test_step ''Verify agent deletion is complete and persistent''
               (in_sequence [agentsPage b (RefreshAndExpectAgentNotVisible agentName)])"
  from assms obtain fs where "in_sequence (fs @ [?d, ?v]) p = (es, Inr p')"
    unfolding lifecycle_test_def by (simp only: prod.case sum.case fst_conv) (metis append.simps)
  from in_sequence_last_two [OF this] obtain p1 p2 e1 e2 where
    "?d p1 = (e1, Inr p2)" and "?v p2 = (e2, Inr p')" by blast
  then have "deleteAgent b agentName p1 = Inr p2"
    and "refreshAndExpectAgentNotVisible b agentName p2 = Inr p'"
    by (auto dest!: test_step_call_Inr)
  then show ?thesis by blast
qed

lemma literal_name_regexp:
  assumes "new_RegExp engine (name_pattern agentName) = Inr re" and "literal_name agentName"
  shows "re = (\<lambda>text. text = agentName)"
  using assms by (simp add: new_RegExp_literal_name)

text \<open>
  C7. With \<open>re\<close> the compiled pattern of the generated name: when \<^verbatim>\<open>deleteAgent\<close>
  returns, the page it returns has no card paragraph whose text \<open>re\<close> accepts (the
  assertion is made inside the method, before it returns), and for a name without a
  syntax character no card paragraph whose text is the name; when
  \<^verbatim>\<open>refreshAndExpectAgentNotVisible\<close> returns, the page was reloaded and the page it
  returns has no such paragraph either; and in a lifecycle run that returns, the delete
  step returned and the reload-and-verify step started from the page the delete step
  left.
\<close>

theorem deletion_asserted_immediately_and_after_reload:
  assumes "new_RegExp (regexp b) (name_pattern agentName) = Inr re"
  shows "(\<forall>p p'. deleteAgent b agentName p = Inr p' \<longrightarrow>
            (\<forall>q \<in> set (card_paragraphs b p'). \<not> re (para_text q)) \<and>
            (literal_name agentName \<longrightarrow>
               agentName \<notin> set (map para_text (card_paragraphs b p')))) \<and>
         (\<forall>p p'. refreshAndExpectAgentNotVisible b agentName p = Inr p' \<longrightarrow>
            (\<forall>q \<in> set (card_paragraphs b p'). \<not> re (para_text q)) \<and>
            (literal_name agentName \<longrightarrow>
               agentName \<notin> set (map para_text (card_paragraphs b p'))) \<and>
            (\<exists>p1 p2 p3. perform b Reload p = Inr p1 \<and> waitForPageLoad b p1 = Inr p2 \<and>
               waitForPageLoad b p2 = Inr p3 \<and> p' \<in> set (p3 # retries b 30000 p3))) \<and>
         (\<forall>config r r' p es p'.
            call_getAgentName config r = (Inr agentName, r') \<and>
            fst (lifecycle_test b config r p) = (es, Inr p') \<longrightarrow>
            (\<exists>p8 p9. deleteAgent b agentName p8 = Inr p9 \<and>
                     refreshAndExpectAgentNotVisible b agentName p9 = Inr p'))"
proof (intro conjI allI impI)
  fix p p'
  assume "deleteAgent b agentName p = Inr p'"
  then obtain p6 where "expectAgentNotVisible b agentName p6 = Inr p'"
    by (auto simp: deleteAgent_def assms split: sum.splits)
  from expectAgentNotVisible_Inr [OF assms this]
  show none: "\<forall>q \<in> set (card_paragraphs b p'). \<not> re (para_text q)" by simp
  assume "literal_name agentName"
  with assms have "re = (\<lambda>text. text = agentName)" by (rule literal_name_regexp)
  with none show "agentName \<notin> set (map para_text (card_paragraphs b p'))" by auto
next
  fix p p'
  assume r: "refreshAndExpectAgentNotVisible b agentName p = Inr p'"
  then obtain p1 p2 where 1: "perform b Reload p = Inr p1" and 2: "waitForPageLoad b p1 = Inr p2"
    and 3: "expectAgentNotVisible b agentName p2 = Inr p'"
    by (auto simp: refreshAndExpectAgentNotVisible_def split: sum.splits)
  from expectAgentNotVisible_Inr [OF assms 3] 1 2
  show none: "\<forall>q \<in> set (card_paragraphs b p'). \<not> re (para_text q)"
    and "\<exists>p1 p2 p3. perform b Reload p = Inr p1 \<and> waitForPageLoad b p1 = Inr p2 \<and>
               waitForPageLoad b p2 = Inr p3 \<and> p' \<in> set (p3 # retries b 30000 p3)"
    by auto
  assume "literal_name agentName"
  with assms have "re = (\<lambda>text. text = agentName)" by (rule literal_name_regexp)
  with none show "agentName \<notin> set (map para_text (card_paragraphs b p'))" by auto
next
  fix config r r' p es p'
  assume "call_getAgentName config r = (Inr agentName, r') \<and>
          fst (lifecycle_test b config r p) = (es, Inr p')"
  then show "\<exists>p8 p9. deleteAgent b agentName p8 = Inr p9 \<and>
                     refreshAndExpectAgentNotVisible b agentName p9 = Inr p'"
    by (auto dest: lifecycle_ends_with_deletion)
qed

theorem deletion_asserted_immediately_and_after_reload_witness:
  "new_RegExp (regexp toy_browser) (name_pattern ''Foo_AB12CD34'') =
     Inr (\<lambda>text. text = ''Foo_AB12CD34'') \<and>
   literal_name ''Foo_AB12CD34'' \<and>
   map para_text (card_paragraphs toy_browser two_agents) = [''Foo_AB12CD34'', ''Foo_AB12''] \<and>
   deleteAgent toy_browser ''Foo_AB12CD34'' two_agents = Inr one_agent_left \<and>
   map para_text (card_paragraphs toy_browser one_agent_left) = [''Foo_AB12''] \<and>
   ''Foo_AB12CD34'' \<notin> set (map para_text (card_paragraphs toy_browser one_agent_left)) \<and>
   refreshAndExpectAgentNotVisible toy_browser ''Foo_AB12CD34'' one_agent_left =
     Inr one_agent_left"
proof -
  have re: "new_RegExp (regexp toy_browser) (name_pattern ''Foo_AB12CD34'') =
     Inr (\<lambda>text. text = ''Foo_AB12CD34'')"
    by (simp add: new_RegExp_literal_name literal_Foo)
  have d: "deleteAgent toy_browser ''Foo_AB12CD34'' two_agents = Inr one_agent_left"
    by (simp add: deleteAgent_def expectAgentNotVisible_def waitForPageLoad_def
        new_RegExp_literal_name literal_Foo expect_retrying_def toHaveCount_def
        agent_name_paragraphs_def toy_browser_def toy_listing_def two_agents_def
        one_agent_left_def name_pattern_eq)
  have v: "refreshAndExpectAgentNotVisible toy_browser ''Foo_AB12CD34'' one_agent_left =
     Inr one_agent_left"
    by (simp add: refreshAndExpectAgentNotVisible_def expectAgentNotVisible_def
        waitForPageLoad_def new_RegExp_literal_name literal_Foo expect_retrying_def
        toHaveCount_def agent_name_paragraphs_def toy_browser_def toy_listing_def
        one_agent_left_def name_pattern_eq)
  have l: "map para_text (card_paragraphs toy_browser two_agents) = [''Foo_AB12CD34'', ''Foo_AB12'']"
    "map para_text (card_paragraphs toy_browser one_agent_left) = [''Foo_AB12'']"
    by (simp_all add: toy_browser_def two_agents_def one_agent_left_def toy_listing_def)
  from deletion_asserted_immediately_and_after_reload [OF re] d literal_Foo(1)
  have "''Foo_AB12CD34'' \<notin> set (map para_text (card_paragraphs toy_browser one_agent_left))"
    by blast
  with re d v l literal_Foo(1) show ?thesis by blast
qed

end
